theory Spec2Isabelle
  imports Complex_Main "HOL-Library.Stream"
begin

section \<open>The FEniCS solver service: job lifecycle and result synthesis\<close>

text \<open>
  A shallow embedding of \<^verbatim>\<open>fenics_service/main.py\<close>. Python floats are idealised
  as real numbers: rounding is ignored, and so are the special values and the overflow of
  float arithmetic. The one range error that moderate inputs reach, the
  \<^verbatim>\<open>OverflowError\<close> of \<^verbatim>\<open>math.exp\<close>, is a branch of the model. Exceptions are
  values of the type \<open>exn\<close>; a function that can raise returns \<open>exn + 'a\<close>, and one
  that also reports progress returns the state its callbacks leave behind next to it.
  What the libraries decide is a parameter: the seeded random generator, the calls into
  dolfin and numpy, and the identifier \<^verbatim>\<open>uuid4\<close> draws.
\<close>

subsection \<open>Data model\<close>

record StressPoint =
  strain :: real
  stress :: real

record Material =
  mat_id :: int
  mat_name :: string
  youngsModulus :: real
  poissonRatio :: real
  stressStrainCurve :: "StressPoint list"

record SimulationRequest =
  name :: string
  materialId :: int
  sim_type :: string
  appliedLoad :: "real option"
  temperature :: "real option"
  duration :: "real option"
  frequency :: "real option"
  dampingRatio :: "real option"
  material :: Material

text \<open>One entry of \<^verbatim>\<open>timeSeriesData\<close>: the dictionary with the keys time, stress, displacement.\<close>

record SeriesPoint =
  time :: real
  ts_stress :: real
  displacement :: real

text \<open>One entry of \<^verbatim>\<open>hotspots\<close>: the dictionary with the keys type, value, location.\<close>

record Hotspot =
  hs_type :: string
  hs_value :: real
  hs_location :: "real list"

text \<open>
  The result dictionary. A key that one of the two builders leaves out (hotspots,
  warning) is an option; \<open>curveData\<close> is the key \<^verbatim>\<open>stressStrainCurve\<close>, whose
  entries have the two fields of a \<open>StressPoint\<close>.
\<close>

record Results =
  maxStress :: real
  minStress :: real
  avgStress :: real
  stressRange :: real
  maxDeformation :: real
  maxStrain :: real
  avgStrain :: real
  safetyFactor :: real
  timeSeriesData :: "SeriesPoint list"
  curveData :: "StressPoint list"
  hotspots :: "Hotspot list option"
  source :: string
  warning :: "string option"

record JobStatus =
  job_id :: string
  status :: string
  progress :: int
  results :: "Results option"
  error :: "string option"

datatype exn =
  ZeroDivisionError
  | OverflowError
  | ValueError
  | KeyError
  | HTTPException nat
  | External string

subsection \<open>Python primitives\<close>

text \<open>\<^verbatim>\<open>m >>= f\<close> on results: the first exception ends the computation.\<close>

definition and_then :: "exn + 'a \<Rightarrow> ('a \<Rightarrow> exn + 'b) \<Rightarrow> exn + 'b" where
  "and_then m f = (case m of Inl e \<Rightarrow> Inl e | Inr v \<Rightarrow> f v)"

text \<open>\<^verbatim>\<open>x or d\<close> on an optional float: \<^verbatim>\<open>None\<close> and \<^verbatim>\<open>0.0\<close> are both falsy.\<close>

definition py_or :: "real option \<Rightarrow> real \<Rightarrow> real" where
  "py_or x d = (case x of None \<Rightarrow> d | Some v \<Rightarrow> if v = 0 then d else v)"

text \<open>\<^verbatim>\<open>x if x is not None else d\<close>.\<close>

definition if_not_None :: "real option \<Rightarrow> real \<Rightarrow> real" where
  "if_not_None x d = (case x of None \<Rightarrow> d | Some v \<Rightarrow> v)"

text \<open>Float division raises on a zero divisor.\<close>

definition py_div :: "real \<Rightarrow> real \<Rightarrow> exn + real" where
  "py_div a b = (if b = 0 then Inl ZeroDivisionError else Inr (a / b))"

text \<open>
  \<^verbatim>\<open>max\<close> and \<^verbatim>\<open>min\<close> of an iterable: the first element, replaced by each later one
  that is strictly greater (smaller); \<^verbatim>\<open>ValueError\<close> on an empty one.
\<close>

fun py_max :: "real list \<Rightarrow> exn + real" where
  "py_max [] = Inl ValueError"
| "py_max (x # xs) = Inr (fold (\<lambda>item best. if item > best then item else best) xs x)"

fun py_min :: "real list \<Rightarrow> exn + real" where
  "py_min [] = Inl ValueError"
| "py_min (x # xs) = Inr (fold (\<lambda>item best. if item < best then item else best) xs x)"

text \<open>\<^verbatim>\<open>int(x)\<close> truncates a float towards zero.\<close>

definition py_int :: "real \<Rightarrow> int" where
  "py_int x = (if 0 \<le> x then \<lfloor>x\<rfloor> else \<lceil>x\<rceil>)"

text \<open>
  The largest finite double, and \<^verbatim>\<open>math.exp\<close>, which raises \<^verbatim>\<open>OverflowError\<close>
  ("math range error") when its result is larger.
\<close>

definition DBL_MAX :: real where
  "DBL_MAX = 2 ^ 1024 - 2 ^ 971"

definition math_exp :: "real \<Rightarrow> exn + real" where
  "math_exp x = (if exp x > DBL_MAX then Inl OverflowError else Inr (exp x))"

text \<open>
  \<^verbatim>\<open>random.Random(seed)\<close> is a generator whose output is a function of the seed: the
  stream of the values its \<^verbatim>\<open>random()\<close> returns, one after the other. The seeding
  function is a parameter \<open>Random\<close> of everything that draws numbers.
  \<^verbatim>\<open>uniform(a, b)\<close> is \<^verbatim>\<open>a + (b - a) * self.random()\<close>; it returns the number and
  the generator advanced by one draw.
\<close>

definition uniform :: "real \<Rightarrow> real \<Rightarrow> real stream \<Rightarrow> real \<times> real stream" where
  "uniform a b rng = (a + (b - a) * shd rng, stl rng)"

subsection \<open>The synthetic stress-strain curve\<close>

text \<open>The loop \<^verbatim>\<open>for point in curve\<close> of \<^verbatim>\<open>_build_stress_strain_curve\<close>.\<close>

fun curve_loop ::
  "real \<Rightarrow> real \<Rightarrow> StressPoint list \<Rightarrow> real stream \<Rightarrow> StressPoint list \<Rightarrow> StressPoint list" where
  "curve_loop stress_scale strain_scale [] rng dense_curve = dense_curve"
| "curve_loop stress_scale strain_scale (point # rest) rng dense_curve =
     (case uniform (- 0.015) 0.015 rng of
        (u, rng') \<Rightarrow>
          (let noise = u * stress point
           in curve_loop stress_scale strain_scale rest rng'
                (dense_curve @
                  [\<lparr>strain = strain point * strain_scale,
                    stress = max 0 (stress point * stress_scale + noise)\<rparr>])))"

definition build_stress_strain_curve ::
  "(string \<Rightarrow> real stream) \<Rightarrow> string \<Rightarrow> SimulationRequest \<Rightarrow> real option
    \<Rightarrow> exn + StressPoint list" where
  "build_stress_strain_curve Random jid payload max_stress =
     (let curve = stressStrainCurve (material payload) in
      if curve = [] then Inr [\<lparr>strain = 0, stress = 0\<rparr>]
      else
        (let rng = Random (jid @ ''_curve'');
             applied_load = if_not_None (appliedLoad payload) 1000;
             load_factor = max 0.6 (min 1.6 (applied_load / 1000))
         in and_then (py_max (map stress curve)) (\<lambda>max_curve_stress.
            and_then
              (case max_stress of
                 None \<Rightarrow> Inr load_factor
               | Some m \<Rightarrow> if m = 0 then Inr load_factor else py_div m max_curve_stress)
              (\<lambda>stress_scale.
                 (let strain_scale = 1 + py_or (dampingRatio payload) 0.05 * 0.2
                  in Inr (curve_loop stress_scale strain_scale curve rng []))))))"

subsection \<open>Mesh resolution and allowable stress\<close>

definition mesh_resolution :: "SimulationRequest \<Rightarrow> int" where
  "mesh_resolution payload =
     (let applied_load = if_not_None (appliedLoad payload) 1000;
          dur = py_or (duration payload) 10;
          resolution = 6 + py_int (min 6 ((applied_load / 1000) + (dur / 10)))
      in max 6 (min 14 resolution))"

definition estimate_allowable_stress :: "SimulationRequest \<Rightarrow> real \<Rightarrow> exn + real" where
  "estimate_allowable_stress payload max_stress =
     (let curve = stressStrainCurve (material payload) in
      if curve \<noteq> [] then and_then (py_max (map stress curve)) (\<lambda>ultimate. Inr (ultimate * 0.9))
      else Inr (max_stress * 1.2))"

text \<open>
  \<^verbatim>\<open>allowable_stress / max_stress if max_stress > 0 else 0.0\<close>, the line both result
  builders share.
\<close>

definition safety_factor_of :: "real \<Rightarrow> real \<Rightarrow> real" where
  "safety_factor_of allowable_stress max_stress =
     (if max_stress > 0 then allowable_stress / max_stress else 0)"

subsection \<open>The synthetic time series\<close>

definition points :: nat where
  "points = 40"

text \<open>
  One pass through the body of the loop \<^verbatim>\<open>for index in range(points)\<close> of
  \<^verbatim>\<open>_build_time_series\<close>, up to the point appended: the sample at \<open>index\<close> and the
  generator after its two draws, or the exception the body raises.
\<close>

definition series_point ::
  "real \<Rightarrow> real \<Rightarrow> real \<Rightarrow> real \<Rightarrow> real \<Rightarrow> nat \<Rightarrow> real stream
    \<Rightarrow> exn + (SeriesPoint \<times> real stream)" where
  "series_point dur freq damping base amplitude index rng =
     (let time_value = dur * real index / real (max (points - 1) 1) in
      and_then (py_div (2 * pi * freq * time_value) dur) (\<lambda>angle.
        (let oscillation = sin angle in
         and_then (math_exp (- damping * time_value)) (\<lambda>decay.
           (case uniform (- 0.03) 0.03 rng of
              (u, rng1) \<Rightarrow>
                (let noise = u * amplitude;
                     stress_value = base + amplitude * oscillation * decay + noise
                 in and_then (py_div time_value dur) (\<lambda>fraction.
                      (case uniform (- 0.002) 0.002 rng1 of
                         (w, rng2) \<Rightarrow>
                           (let displ = fraction * 0.2 + w
                            in Inr (\<lparr>time = time_value,
                                      ts_stress = max stress_value 0,
                                      displacement = max displ 0\<rparr>, rng2))))))))))"

text \<open>
  The progress callback is a state transformer on whatever state the caller threads
  through (\<^verbatim>\<open>set_progress\<close> below is the only one the service passes); \<^verbatim>\<open>None\<close> is
  the absent callback. \<^verbatim>\<open>if progress_cb: progress_cb(v)\<close>:
\<close>

definition report :: "(int \<Rightarrow> 'st \<Rightarrow> 'st) option \<Rightarrow> int \<Rightarrow> 'st \<Rightarrow> 'st" where
  "report progress_cb v st = (case progress_cb of None \<Rightarrow> st | Some cb \<Rightarrow> cb v st)"

text \<open>
  The loop itself, over the indices still to visit. An exception leaves the loop with
  the state the callbacks made so far. \<^verbatim>\<open>progress_range\<close> is a pair, truthy whenever
  it is given.
\<close>

fun series_loop ::
  "real \<Rightarrow> real \<Rightarrow> real \<Rightarrow> real \<Rightarrow> real \<Rightarrow> (int \<Rightarrow> 'st \<Rightarrow> 'st) option \<Rightarrow> (int \<times> int) option
    \<Rightarrow> int \<Rightarrow> int \<Rightarrow> nat list \<Rightarrow> real stream \<Rightarrow> SeriesPoint list \<Rightarrow> 'st
    \<Rightarrow> (exn + SeriesPoint list) \<times> 'st" where
  "series_loop dur freq damping base amplitude progress_cb progress_range
     start_progress end_progress [] rng time_series st = (Inr time_series, st)"
| "series_loop dur freq damping base amplitude progress_cb progress_range
     start_progress end_progress (index # rest) rng time_series st =
     (case series_point dur freq damping base amplitude index rng of
        Inl e \<Rightarrow> (Inl e, st)
      | Inr (pt, rng') \<Rightarrow>
          series_loop dur freq damping base amplitude progress_cb progress_range
            start_progress end_progress rest rng' (time_series @ [pt])
            (if progress_cb \<noteq> None \<and> progress_range \<noteq> None \<and> index mod 4 = 0
             then report progress_cb
                    (py_int (real_of_int start_progress
                       + real_of_int (end_progress - start_progress)
                         * (real index / real (max (points - 1) 1)))) st
             else st))"

definition build_time_series ::
  "(string \<Rightarrow> real stream) \<Rightarrow> string \<Rightarrow> SimulationRequest \<Rightarrow> real option
    \<Rightarrow> (int \<Rightarrow> 'st \<Rightarrow> 'st) option \<Rightarrow> (int \<times> int) option \<Rightarrow> 'st
    \<Rightarrow> (exn + SeriesPoint list) \<times> 'st" where
  "build_time_series Random jid payload max_stress progress_cb progress_range st =
     (let dur = py_or (duration payload) 10;
          freq = py_or (frequency payload) 1;
          damping = py_or (dampingRatio payload) 0.05;
          rng = Random jid;
          base = py_or max_stress 100 * 0.35;
          amplitude = py_or max_stress 100 * 0.65;
          start_progress = (case progress_range of None \<Rightarrow> 0 | Some r \<Rightarrow> fst r);
          end_progress = (case progress_range of None \<Rightarrow> 0 | Some r \<Rightarrow> snd r)
      in series_loop dur freq damping base amplitude progress_cb progress_range
           start_progress end_progress [0..<points] rng [] st)"

subsection \<open>The fallback result builder\<close>

text \<open>\<^verbatim>\<open>xs or d\<close> on lists: the empty list is falsy.\<close>

definition list_or :: "'a list \<Rightarrow> 'a list \<Rightarrow> 'a list" where
  "list_or xs d = (if xs = [] then d else xs)"

definition build_stub_results ::
  "(string \<Rightarrow> real stream) \<Rightarrow> string \<Rightarrow> SimulationRequest \<Rightarrow> (int \<Rightarrow> 'st \<Rightarrow> 'st) option \<Rightarrow> 'st
    \<Rightarrow> (exn + Results) \<times> 'st" where
  "build_stub_results Random jid payload progress_cb st =
     (case and_then (build_stress_strain_curve Random jid payload None)
             (\<lambda>stress_strain_curve.
                (let stresses = list_or (map stress stress_strain_curve) [0];
                     strains = list_or (map strain stress_strain_curve) [0]
                 in and_then (py_max stresses) (\<lambda>max_stress.
                    and_then (py_min stresses) (\<lambda>min_stress.
                    and_then (py_div (sum_list stresses) (real (length stresses)))
                      (\<lambda>avg_stress.
                         Inr (stress_strain_curve, strains, max_stress, min_stress,
                              avg_stress)))))) of
        Inl e \<Rightarrow> (Inl e, st)
      | Inr (stress_strain_curve, strains, max_stress, min_stress, avg_stress) \<Rightarrow>
          (let stress_range = max_stress - min_stress in
           case build_time_series Random jid payload (Some max_stress) progress_cb
                  (Some (70, 95)) st of
             (Inl e, st') \<Rightarrow> (Inl e, st')
           | (Inr time_series, st') \<Rightarrow>
               (and_then (estimate_allowable_stress payload max_stress)
                  (\<lambda>allowable_stress.
                     (let safety_factor = safety_factor_of allowable_stress max_stress in
                      and_then (py_max strains) (\<lambda>max_strains.
                      and_then (py_div (sum_list strains) (real (length strains)))
                        (\<lambda>avg_strains.
                           Inr \<lparr>maxStress = max_stress,
                                minStress = min_stress,
                                avgStress = avg_stress,
                                stressRange = stress_range,
                                maxDeformation = max_strains,
                                maxStrain = max_strains,
                                avgStrain = avg_strains,
                                safetyFactor = safety_factor,
                                timeSeriesData = time_series,
                                curveData = stress_strain_curve,
                                hotspots = None,
                                source = ''fallback'',
                                warning = None\<rparr>)))),
                st')))"

subsection \<open>The solver path\<close>

text \<open>
  numpy and dolfin are not code of this repository. What their calls in
  \<^verbatim>\<open>_solve_with_fenics\<close> do is a parameter of the model: either one of them raises
  (the import; the mesh and function space; the trial and test functions; the boundary
  condition, measures and forms; the solve; the projections; the extraction of the
  scalars and of the hotspot), or together they yield the scalars the rest of the
  function uses. The stage says where the exception was raised, and with it which
  progress checkpoints were reported before.
\<close>

datatype stage =
  Import | MeshBuild | Functions | Assembly | Solve | Projection | PostProcessing

record SolverFields =
  max_stress_of :: real
  min_stress_of :: real
  avg_stress_of :: real
  max_strain_of :: real
  avg_strain_of :: real
  max_deformation_of :: real
  hotspot_location_of :: "real list"

datatype dolfin = Raises stage exn | Solves SolverFields

fun checkpoints_before :: "stage \<Rightarrow> int list" where
  "checkpoints_before Import = []"
| "checkpoints_before MeshBuild = []"
| "checkpoints_before Functions = [12]"
| "checkpoints_before Assembly = [12]"
| "checkpoints_before Solve = [12, 35]"
| "checkpoints_before Projection = [12, 35, 55]"
| "checkpoints_before PostProcessing = [12, 35, 55, 70]"

text \<open>
  The Lame parameters \<^verbatim>\<open>mu\<close> and \<^verbatim>\<open>lmbda\<close>, computed between the trial and test
  functions and the boundary condition: the divisions raise for a Poisson ratio of -1
  or 0.5.
\<close>

definition material_constants :: "SimulationRequest \<Rightarrow> exn + (real \<times> real)" where
  "material_constants payload =
     (let poisson = poissonRatio (material payload);
          temp = py_or (temperature payload) 20;
          temperature_factor = max 0.6 (1 - (temp - 20) * 0.0002);
          youngs_modulus = youngsModulus (material payload) * 1000 * temperature_factor
      in and_then (py_div youngs_modulus (2 * (1 + poisson))) (\<lambda>mu.
         and_then (py_div (youngs_modulus * poisson) ((1 + poisson) * (1 - 2 * poisson)))
           (\<lambda>lmbda. Inr (mu, lmbda))))"

text \<open>The exception of a library call that comes before the Lame parameters.\<close>

fun early_failure :: "dolfin \<Rightarrow> (stage \<times> exn) option" where
  "early_failure (Raises Import e) = Some (Import, e)"
| "early_failure (Raises MeshBuild e) = Some (MeshBuild, e)"
| "early_failure (Raises Functions e) = Some (Functions, e)"
| "early_failure (Raises stg e) = None"
| "early_failure (Solves f) = None"

definition solve_with_fenics ::
  "(string \<Rightarrow> real stream) \<Rightarrow> dolfin \<Rightarrow> string \<Rightarrow> SimulationRequest
    \<Rightarrow> (int \<Rightarrow> 'st \<Rightarrow> 'st) option \<Rightarrow> 'st \<Rightarrow> (exn + Results) \<times> 'st" where
  "solve_with_fenics Random fem jid payload progress_cb st =
     (case early_failure fem of
        Some (stg, e) \<Rightarrow> (Inl e, fold (report progress_cb) (checkpoints_before stg) st)
      | None \<Rightarrow>
     (case material_constants payload of
        Inl e \<Rightarrow> (Inl e, report progress_cb 12 st)
      | Inr lame \<Rightarrow>
     (case fem of
        Raises stg e \<Rightarrow> (Inl e, fold (report progress_cb) (checkpoints_before stg) st)
      | Solves f \<Rightarrow>
          (let st1 = fold (report progress_cb) [12, 35, 55, 70, 80] st;
               max_stress = max_stress_of f;
               min_stress = min_stress_of f;
               stress_range = max_stress - min_stress
           in case build_stress_strain_curve Random jid payload (Some max_stress) of
                Inl e \<Rightarrow> (Inl e, st1)
              | Inr stress_strain_curve \<Rightarrow>
                  (case build_time_series Random jid payload (Some max_stress) progress_cb
                          (Some (80, 95)) st1 of
                     (Inl e, st2) \<Rightarrow> (Inl e, st2)
                   | (Inr time_series, st2) \<Rightarrow>
                       (let st3 = report progress_cb 95 st2 in
                        (and_then (estimate_allowable_stress payload max_stress)
                           (\<lambda>allowable_stress.
                              (let safety_factor =
                                     safety_factor_of allowable_stress max_stress
                               in Inr \<lparr>maxStress = max_stress,
                                       minStress = min_stress,
                                       avgStress = avg_stress_of f,
                                       stressRange = stress_range,
                                       maxDeformation = max_deformation_of f,
                                       maxStrain = max_strain_of f,
                                       avgStrain = avg_strain_of f,
                                       safetyFactor = safety_factor,
                                       timeSeriesData = time_series,
                                       curveData = stress_strain_curve,
                                       hotspots =
                                         Some [\<lparr>hs_type = ''max_stress'',
                                                 hs_value = max_stress,
                                                 hs_location = hotspot_location_of f\<rparr>],
                                       source = ''fenics'',
                                       warning = None\<rparr>)),
                         st3)))))))"

subsection \<open>The job store and the job runner\<close>

text \<open>
  \<^verbatim>\<open>_jobs\<close> maps a job identifier to its record. \<^verbatim>\<open>create_job\<close> stores a new
  record under a fresh identifier (\<^verbatim>\<open>uuid4\<close>, a parameter here) and schedules
  \<^verbatim>\<open>_run_job\<close>; \<^verbatim>\<open>get_job\<close> answers 404 for an identifier without a record.
\<close>

definition create_job :: "string \<Rightarrow> (string \<rightharpoonup> JobStatus) \<Rightarrow> JobStatus \<times> (string \<rightharpoonup> JobStatus)" where
  "create_job new_id jobs =
     (let st = \<lparr>job_id = new_id, status = ''running'', progress = 5,
                results = None, error = None\<rparr>
      in (st, jobs(new_id \<mapsto> st)))"

definition get_job :: "(string \<rightharpoonup> JobStatus) \<Rightarrow> string \<Rightarrow> exn + JobStatus" where
  "get_job jobs jid = (case jobs jid of None \<Rightarrow> Inl (HTTPException 404) | Some st \<Rightarrow> Inr st)"

text \<open>
  The state of one run of \<^verbatim>\<open>_run_job\<close>: the record it mutates in place, the local
  \<^verbatim>\<open>last_progress\<close>, and the history of the record: the value it had after each
  attribute assignment, oldest first, starting with the record as \<^verbatim>\<open>create_job\<close>
  stored it. These are the values a status query running between two assignments can
  read. The wall clock (\<^verbatim>\<open>last_tick\<close>, the sleep of \<^verbatim>\<open>set_progress\<close>) delays the
  assignments and changes none of them; it is left out. So is \<^verbatim>\<open>_update_progress\<close>,
  which nothing in the file calls.
\<close>

record RunState =
  job :: JobStatus
  last_progress :: int
  observed :: "JobStatus list"

definition assign :: "(JobStatus \<Rightarrow> JobStatus) \<Rightarrow> RunState \<Rightarrow> RunState" where
  "assign upd s = (let j = upd (job s) in s\<lparr>job := j, observed := observed s @ [j]\<rparr>)"

definition set_progress :: "int \<Rightarrow> RunState \<Rightarrow> RunState" where
  "set_progress v s =
     (let v' = max v (last_progress s);
          s' = assign (\<lambda>j. j\<lparr>progress := min v' 99\<rparr>) s
      in s'\<lparr>last_progress := progress (job s')\<rparr>)"

text \<open>
  \<^verbatim>\<open>_run_job\<close>. The result is what the call raises or returns, the store after it and
  the history of the job's record. An exception raised inside the \<^verbatim>\<open>except\<close> block
  leaves the function.
\<close>

definition run_job ::
  "(string \<Rightarrow> real stream) \<Rightarrow> dolfin \<Rightarrow> (string \<rightharpoonup> JobStatus) \<Rightarrow> string \<Rightarrow> SimulationRequest
    \<Rightarrow> (exn + unit) \<times> (string \<rightharpoonup> JobStatus) \<times> JobStatus list" where
  "run_job Random fem jobs jid payload =
     (case jobs jid of
        None \<Rightarrow> (Inl KeyError, jobs, [])
      | Some st \<Rightarrow>
          (let s0 = \<lparr>job = st, last_progress = progress st, observed = [st]\<rparr>;
               s1 = set_progress 8 s0;
               (outcome, s) =
                 (case solve_with_fenics Random fem jid payload (Some set_progress) s1 of
                    (Inr res, s2) \<Rightarrow>
                      (Inr (),
                       assign (\<lambda>j. j\<lparr>results := Some res\<rparr>)
                         (assign (\<lambda>j. j\<lparr>progress := 100\<rparr>)
                            (assign (\<lambda>j. j\<lparr>status := ''completed''\<rparr>) s2)))
                  | (Inl exc, s2) \<Rightarrow>
                      (let s3 = set_progress 70 s2 in
                       case build_stub_results Random jid payload (Some set_progress) s3 of
                         (Inl e, s4) \<Rightarrow> (Inl e, s4)
                       | (Inr fallback, s4) \<Rightarrow>
                           (let fallback' =
                                  fallback\<lparr>warning :=
                                    Some ''FEniCS unavailable, using fallback results.''\<rparr>
                            in (Inr (),
                                assign (\<lambda>j. j\<lparr>results := Some fallback'\<rparr>)
                                  (assign (\<lambda>j. j\<lparr>progress := 100\<rparr>)
                                     (assign (\<lambda>j. j\<lparr>status := ''completed''\<rparr>) s4))))))
           in (outcome, jobs(jid \<mapsto> job s), observed s)))"

subsection \<open>Notions the properties are stated with\<close>

text \<open>
  The decay factor of the last sample, \<^verbatim>\<open>exp(-damping * duration)\<close> with the defaults
  filled in, fits a double.
\<close>

definition decay_in_range :: "SimulationRequest \<Rightarrow> bool" where
  "decay_in_range payload \<longleftrightarrow>
     exp (- (py_or (dampingRatio payload) 0.05 * py_or (duration payload) 10)) \<le> DBL_MAX"

text \<open>A record as a status query sees it while the job runs.\<close>

definition running_snapshot :: "JobStatus \<Rightarrow> bool" where
  "running_snapshot j \<longleftrightarrow>
     status j = ''running'' \<and> progress j \<le> 99 \<and> results j = None \<and> error j = None"

text \<open>The invariant of \<^verbatim>\<open>_run_job\<close> up to its terminal assignments.\<close>

definition run_inv :: "RunState \<Rightarrow> bool" where
  "run_inv s \<longleftrightarrow>
     last_progress s = progress (job s) \<and> observed s \<noteq> [] \<and> last (observed s) = job s \<and>
     sorted (map progress (observed s)) \<and> list_all running_snapshot (observed s)"

subsection \<open>Sample inputs\<close>

text \<open>
  A generator whose every draw is one half, so that each \<^verbatim>\<open>uniform\<close> over a symmetric
  interval returns zero; a request that leaves every optional field out, for a material
  without reference curve; and the same request for a material with a two-point curve
  whose maximum stress is 500.
\<close>

definition fixed_rng :: "string \<Rightarrow> real stream" where
  "fixed_rng seed = sconst (1 / 2)"

definition bare_request :: SimulationRequest where
  "bare_request =
     \<lparr>name = ''beam'', materialId = 1, sim_type = ''static'', appliedLoad = None,
      temperature = None, duration = None, frequency = None, dampingRatio = None,
      material = \<lparr>mat_id = 1, mat_name = ''steel'', youngsModulus = 200,
                  poissonRatio = 3 / 10, stressStrainCurve = []\<rparr>\<rparr>"

definition steel_request :: SimulationRequest where
  "steel_request =
     bare_request\<lparr>material :=
       \<lparr>mat_id = 1, mat_name = ''steel'', youngsModulus = 200, poissonRatio = 3 / 10,
        stressStrainCurve =
          [\<lparr>strain = 1 / 1000, stress = 200\<rparr>, \<lparr>strain = 2 / 1000, stress = 500\<rparr>]\<rparr>\<rparr>"


definition solved_fields :: SolverFields where
  "solved_fields =
     \<lparr>max_stress_of = 250, min_stress_of = 10, avg_stress_of = 120, max_strain_of = 1 / 100,
      avg_strain_of = 1 / 200, max_deformation_of = 1 / 50,
      hotspot_location_of = [1 / 2, 1 / 2, 1]\<rparr>"

section \<open>Properties\<close>

subsection \<open>Python primitives\<close>

lemma py_max_eq_Max: "xs \<noteq> [] \<Longrightarrow> py_max xs = Inr (Max (set xs))"
proof (cases xs)
  case Nil
  assume "xs \<noteq> []"
  with Nil show ?thesis by simp
next
  case (Cons x rest)
  have "fold (\<lambda>item best. if item > best then item else best) ys b = Max (insert b (set ys))"
    for ys and b :: real
  proof (induction ys arbitrary: b)
    case Nil
    show ?case by simp
  next
    case (Cons y ys)
    have "Max (insert (if y > b then y else b) (set ys)) = Max (insert b (insert y (set ys)))"
      by (cases "set ys = {}") (auto simp: max_def Max_insert)
    with Cons show ?case by simp
  qed
  with Cons show ?thesis by simp
qed

lemma py_min_eq_Min: "xs \<noteq> [] \<Longrightarrow> py_min xs = Inr (Min (set xs))"
proof (cases xs)
  case Nil
  assume "xs \<noteq> []"
  with Nil show ?thesis by simp
next
  case (Cons x rest)
  have "fold (\<lambda>item best. if item < best then item else best) ys b = Min (insert b (set ys))"
    for ys and b :: real
  proof (induction ys arbitrary: b)
    case Nil
    show ?case by simp
  next
    case (Cons y ys)
    have "Min (insert (if y < b then y else b) (set ys)) = Min (insert b (insert y (set ys)))"
      by (cases "set ys = {}") (auto simp: min_def Min_insert)
    with Cons show ?case by simp
  qed
  with Cons show ?thesis by simp
qed

lemma DBL_MAX_ge_one: "1 \<le> DBL_MAX"
  unfolding DBL_MAX_def by simp



lemma and_then_Inr [simp]: "and_then (Inr v) f = f v"
  by (simp add: and_then_def)

lemma and_then_Inl [simp]: "and_then (Inl e) f = Inl e"
  by (simp add: and_then_def)

lemma py_div_nonzero: "b \<noteq> 0 \<Longrightarrow> py_div a b = Inr (a / b)"
  by (simp add: py_div_def)

lemma py_or_nonzero: "d \<noteq> 0 \<Longrightarrow> py_or x d \<noteq> 0"
  by (simp add: py_or_def split: option.splits)

subsection \<open>The stress-strain curve\<close>

lemma curve_loop_length:
  "length (curve_loop ss sc pts rng acc) = length acc + length pts"
  by (induction pts arbitrary: rng acc) (simp_all add: uniform_def)



lemma build_stress_strain_curve_empty:
  "stressStrainCurve (material p) = [] \<Longrightarrow>
   build_stress_strain_curve R j p ms = Inr [\<lparr>strain = 0, stress = 0\<rparr>]"
  by (simp add: build_stress_strain_curve_def)

lemma build_stress_strain_curve_shape:
  assumes "build_stress_strain_curve R j p ms = Inr c"
  shows "(stressStrainCurve (material p) = [] \<and> c = [\<lparr>strain = 0, stress = 0\<rparr>]) \<or>
         (stressStrainCurve (material p) \<noteq> [] \<and>
          (\<exists>ss. c = curve_loop ss (1 + py_or (dampingRatio p) 0.05 * 0.2)
                       (stressStrainCurve (material p)) (R (j @ ''_curve'')) []))"
proof (cases "stressStrainCurve (material p) = []")
  case True
  with assms show ?thesis
    by (simp add: build_stress_strain_curve_empty)
next
  case False
  then have "py_max (map stress (stressStrainCurve (material p)))
             = Inr (Max (set (map stress (stressStrainCurve (material p)))))"
    by (intro py_max_eq_Max) simp
  with assms False show ?thesis
    by (auto simp: build_stress_strain_curve_def Let_def py_div_def
             split: option.splits if_splits)
qed

lemma build_stress_strain_curve_nonempty:
  "build_stress_strain_curve R j p ms = Inr c \<Longrightarrow> c \<noteq> []"
  using curve_loop_length [of _ _ "stressStrainCurve (material p)" _ "[]"]
  by (auto dest!: build_stress_strain_curve_shape) (metis length_0_conv list.size(3) add_0)



lemma build_stress_strain_curve_None:
  "\<exists>c. build_stress_strain_curve R j p None = Inr c"
proof (cases "stressStrainCurve (material p) = []")
  case True
  then show ?thesis by (simp add: build_stress_strain_curve_empty)
next
  case False
  then have "py_max (map stress (stressStrainCurve (material p)))
             = Inr (Max (set (map stress (stressStrainCurve (material p)))))"
    by (intro py_max_eq_Max) simp
  with False show ?thesis
    by (simp add: build_stress_strain_curve_def Let_def)
qed

subsection \<open>The time-series loop\<close>


lemma series_point_ok:
  assumes "d \<noteq> 0" and "exp (- dm * (d * real i / 39)) \<le> DBL_MAX"
  shows "\<exists>pt. series_point d f dm b a i rng = Inr (pt, stl (stl rng))"
  using assms
  by (simp add: series_point_def points_def py_div_def math_exp_def uniform_def Let_def)




lemma series_loop_ok:
  "d \<noteq> 0 \<Longrightarrow> \<forall>i\<in>set idx. exp (- dm * (d * real i / 39)) \<le> DBL_MAX \<Longrightarrow>
   \<exists>ts. fst (series_loop d f dm b a cb pr sp ep idx rng acc st) = Inr ts"
proof (induction idx arbitrary: rng acc st)
  case Nil
  then show ?case by simp
next
  case (Cons i idx)
  from Cons.prems obtain pt where
    pt: "series_point d f dm b a i rng = Inr (pt, stl (stl rng))"
    using series_point_ok [of d dm i f b a rng] by auto
  from Cons.prems have "\<forall>i\<in>set idx. exp (- dm * (d * real i / 39)) \<le> DBL_MAX" by simp
  from Cons.IH [OF Cons.prems(1) this] pt show ?case by simp
qed


lemma series_loop_fst_indep:
  "fst (series_loop d f dm b a cb pr sp ep idx rng acc st)
   = fst (series_loop d f dm b a cb' pr' sp' ep' idx rng acc st')"
proof (induction idx arbitrary: rng acc st st')
  case Nil
  show ?case by simp
next
  case (Cons i idx)
  show ?case
  proof (cases "series_point d f dm b a i rng")
    case (Inl e)
    then show ?thesis by simp
  next
    case (Inr r)
    obtain pt rng' where r: "r = (pt, rng')" by (cases r)
    show ?thesis
      unfolding series_loop.simps Inr r sum.case prod.case
      by (rule Cons.IH)
  qed
qed

lemma series_loop_state:
  assumes step: "\<And>v s. P s \<Longrightarrow> P (report cb v s)"
  shows "P st \<Longrightarrow> P (snd (series_loop d f dm b a cb pr sp ep idx rng acc st))"
proof (induction idx arbitrary: rng acc st)
  case Nil
  then show ?case by simp
next
  case (Cons i idx)
  show ?case
  proof (cases "series_point d f dm b a i rng")
    case (Inl e)
    with Cons.prems show ?thesis by simp
  next
    case (Inr r)
    obtain pt rng' where r: "r = (pt, rng')" by (cases r)
    show ?thesis
      unfolding series_loop.simps Inr r sum.case prod.case
      by (rule Cons.IH) (simp add: Cons.prems step)
  qed
qed

subsection \<open>The time series and the fallback dictionary\<close>

lemma decay_bound_all:
  assumes "exp (- (dm * d)) \<le> DBL_MAX" and "i < 40"
  shows "exp (- dm * (d * real i / 39)) \<le> DBL_MAX"
proof (cases "0 \<le> - (dm * d)")
  case True
  have "real i / 39 \<le> 1" using assms(2) by simp
  then have "- (dm * d) * (real i / 39) \<le> - (dm * d) * 1"
    using True by (intro mult_left_mono) simp_all
  then have "- dm * (d * real i / 39) \<le> - (dm * d)" by (simp add: algebra_simps)
  then have "exp (- dm * (d * real i / 39)) \<le> exp (- (dm * d))" by simp
  with assms(1) show ?thesis by linarith
next
  case False
  then have "- (dm * d) * (real i / 39) \<le> 0"
    by (intro mult_nonpos_nonneg) simp_all
  then have "- dm * (d * real i / 39) \<le> 0" by (simp add: algebra_simps)
  then have "exp (- dm * (d * real i / 39)) \<le> 1" by simp
  with DBL_MAX_ge_one show ?thesis by linarith
qed


lemma build_time_series_ok:
  assumes "decay_in_range p"
  shows "\<exists>ts. fst (build_time_series R j p ms cb pr st) = Inr ts"
proof -
  let ?d = "py_or (duration p) 10" and ?dm = "py_or (dampingRatio p) 0.05"
  have d: "?d \<noteq> 0" by (rule py_or_nonzero) simp
  from assms have "exp (- (?dm * ?d)) \<le> DBL_MAX" by (simp add: decay_in_range_def)
  then have "\<forall>i\<in>set [0..<40]. exp (- ?dm * (?d * real i / 39)) \<le> DBL_MAX"
    using decay_bound_all by simp
  from series_loop_ok [OF d this] show ?thesis
    by (simp add: build_time_series_def Let_def points_def)
qed



lemma build_time_series_fst_indep:
  "fst (build_time_series R j p ms cb pr st) = fst (build_time_series R j p ms cb' pr' st')"
  unfolding build_time_series_def Let_def by (rule series_loop_fst_indep)

lemma build_time_series_state:
  assumes "\<And>v s. P s \<Longrightarrow> P (report cb v s)" and "P st"
  shows "P (snd (build_time_series R j p ms cb pr st))"
  unfolding build_time_series_def Let_def using assms by (rule series_loop_state)

lemma estimate_allowable_stress_eq:
  "estimate_allowable_stress p m =
     Inr (if stressStrainCurve (material p) \<noteq> []
          then Max (set (map stress (stressStrainCurve (material p)))) * 0.9
          else m * 1.2)"
proof (cases "stressStrainCurve (material p) = []")
  case True
  then show ?thesis by (simp add: estimate_allowable_stress_def)
next
  case False
  then have "py_max (map stress (stressStrainCurve (material p)))
             = Inr (Max (set (map stress (stressStrainCurve (material p)))))"
    by (intro py_max_eq_Max) simp
  with False show ?thesis by (simp add: estimate_allowable_stress_def Let_def)
qed

text \<open>The dictionary the fallback builder returns, from the curve and the time series.\<close>

lemma build_stub_results_eq:
  assumes c: "build_stress_strain_curve R j p None = Inr c"
  shows "build_stub_results R j p cb st =
    (case build_time_series R j p (Some (Max (set (map stress c)))) cb (Some (70, 95)) st of
       (Inl e, st') \<Rightarrow> (Inl e, st')
     | (Inr ts, st') \<Rightarrow>
         (Inr \<lparr>maxStress = Max (set (map stress c)),
               minStress = Min (set (map stress c)),
               avgStress = sum_list (map stress c) / real (length c),
               stressRange = Max (set (map stress c)) - Min (set (map stress c)),
               maxDeformation = Max (set (map strain c)),
               maxStrain = Max (set (map strain c)),
               avgStrain = sum_list (map strain c) / real (length c),
               safetyFactor =
                 safety_factor_of
                   (if stressStrainCurve (material p) \<noteq> []
                    then Max (set (map stress (stressStrainCurve (material p)))) * 0.9
                    else Max (set (map stress c)) * 1.2)
                   (Max (set (map stress c))),
               timeSeriesData = ts,
               curveData = c,
               hotspots = None,
               source = ''fallback'',
               warning = None\<rparr>, st'))"
proof -
  from c have ne: "c \<noteq> []" by (rule build_stress_strain_curve_nonempty)
  then have mx: "py_max (map stress c) = Inr (Max (set (map stress c)))"
    and mn: "py_min (map stress c) = Inr (Min (set (map stress c)))"
    and mxs: "py_max (map strain c) = Inr (Max (set (map strain c)))"
    by (simp_all add: py_max_eq_Max py_min_eq_Min)
  from ne have len: "real (length c) \<noteq> 0" by simp
  show ?thesis
    unfolding build_stub_results_def
    using ne
    by (simp add: c list_or_def mx mn mxs py_div_nonzero [OF len] Let_def
                  estimate_allowable_stress_eq
             split: prod.splits sum.splits)
qed

subsection \<open>Outcome and state of the two result builders\<close>

lemma build_stub_results_fst_indep:
  "fst (build_stub_results R j p cb st) = fst (build_stub_results R j p cb' st')"
proof -
  obtain c where c: "build_stress_strain_curve R j p None = Inr c"
    using build_stress_strain_curve_None by blast
  let ?m = "Some (Max (set (map stress c)))"
  have "fst (build_time_series R j p ?m cb (Some (70, 95)) st)
        = fst (build_time_series R j p ?m cb' (Some (70, 95)) st')"
    by (rule build_time_series_fst_indep)
  then show ?thesis
    unfolding build_stub_results_eq [OF c]
    by (auto split: prod.splits sum.splits)
qed

lemma build_stub_results_state:
  assumes "\<And>v s. P s \<Longrightarrow> P (report cb v s)" and "P st"
  shows "P (snd (build_stub_results R j p cb st))"
proof -
  obtain c where c: "build_stress_strain_curve R j p None = Inr c"
    using build_stress_strain_curve_None by blast
  have "P (snd (build_time_series R j p (Some (Max (set (map stress c)))) cb
                  (Some (70, 95)) st))"
    using assms by (rule build_time_series_state)
  then show ?thesis
    unfolding build_stub_results_eq [OF c]
    by (auto split: prod.splits sum.splits)
qed

lemma build_stub_results_ok:
  assumes "decay_in_range p"
  shows "\<exists>r. fst (build_stub_results R j p cb st) = Inr r"
proof -
  obtain c where c: "build_stress_strain_curve R j p None = Inr c"
    using build_stress_strain_curve_None by blast
  obtain ts where
    "fst (build_time_series R j p (Some (Max (set (map stress c)))) cb (Some (70, 95)) st)
     = Inr ts"
    using build_time_series_ok [OF assms, of R j "Some (Max (set (map stress c)))" cb
                                  "Some (70, 95)" st]
    by (rule exE)
  then show ?thesis
    unfolding build_stub_results_eq [OF c]
    by (auto split: prod.splits sum.splits)
qed


text \<open>What a dictionary returned by the fallback builder holds.\<close>

lemma build_stub_results_Inr:
  assumes "fst (build_stub_results R j p cb st) = Inr r"
  shows "\<exists>c ts.
    build_stress_strain_curve R j p None = Inr c \<and>
    fst (build_time_series R j p (Some (Max (set (map stress c)))) cb (Some (70, 95)) st)
      = Inr ts \<and>
    r = \<lparr>maxStress = Max (set (map stress c)),
          minStress = Min (set (map stress c)),
          avgStress = sum_list (map stress c) / real (length c),
          stressRange = Max (set (map stress c)) - Min (set (map stress c)),
          maxDeformation = Max (set (map strain c)),
          maxStrain = Max (set (map strain c)),
          avgStrain = sum_list (map strain c) / real (length c),
          safetyFactor =
            safety_factor_of
              (if stressStrainCurve (material p) \<noteq> []
               then Max (set (map stress (stressStrainCurve (material p)))) * 0.9
               else Max (set (map stress c)) * 1.2)
              (Max (set (map stress c))),
          timeSeriesData = ts,
          curveData = c,
          hotspots = None,
          source = ''fallback'',
          warning = None\<rparr>"
proof -
  obtain c where c: "build_stress_strain_curve R j p None = Inr c"
    using build_stress_strain_curve_None by blast
  from assms show ?thesis
    unfolding build_stub_results_eq [OF c]
    by (intro exI [of _ c]) (auto simp: c split: prod.splits sum.splits)
qed

lemma fold_report_state:
  assumes "\<And>v s. P s \<Longrightarrow> P (report cb v s)"
  shows "P st \<Longrightarrow> P (fold (report cb) vs st)"
  by (induction vs arbitrary: st) (simp_all add: assms)

text \<open>The solver path when a library call or the Lame parameters raise.\<close>

lemma solve_with_fenics_Raises_snd:
  "snd (solve_with_fenics R (Raises stg e) j p cb st) =
     fold (report cb)
       (if early_failure (Raises stg e) = None \<and> isl (material_constants p) then [12]
        else checkpoints_before stg) st"
  by (cases stg; cases "material_constants p") (simp_all add: solve_with_fenics_def)

lemma solve_with_fenics_Raises_fst:
  "fst (solve_with_fenics R (Raises stg e) j p cb st) =
     Inl (if early_failure (Raises stg e) = None
          then (case material_constants p of Inl e' \<Rightarrow> e' | Inr lame \<Rightarrow> e)
          else e)"
  by (cases stg; cases "material_constants p") (simp_all add: solve_with_fenics_def)

lemma solve_with_fenics_no_constants:
  "material_constants p = Inl e \<Longrightarrow>
   solve_with_fenics R (Solves f) j p cb st = (Inl e, fold (report cb) [12] st)"
  by (simp add: solve_with_fenics_def)

text \<open>The solver path when every library call returns.\<close>

lemma solve_with_fenics_Solves:
  assumes "material_constants p = Inr lame"
  shows "solve_with_fenics R (Solves f) j p cb st =
    (case build_stress_strain_curve R j p (Some (max_stress_of f)) of
       Inl e \<Rightarrow> (Inl e, fold (report cb) [12, 35, 55, 70, 80] st)
     | Inr c \<Rightarrow>
         (case build_time_series R j p (Some (max_stress_of f)) cb (Some (80, 95))
                 (fold (report cb) [12, 35, 55, 70, 80] st) of
            (Inl e, st2) \<Rightarrow> (Inl e, st2)
          | (Inr ts, st2) \<Rightarrow>
              (Inr \<lparr>maxStress = max_stress_of f,
                    minStress = min_stress_of f,
                    avgStress = avg_stress_of f,
                    stressRange = max_stress_of f - min_stress_of f,
                    maxDeformation = max_deformation_of f,
                    maxStrain = max_strain_of f,
                    avgStrain = avg_strain_of f,
                    safetyFactor =
                      safety_factor_of
                        (if stressStrainCurve (material p) \<noteq> []
                         then Max (set (map stress (stressStrainCurve (material p)))) * 0.9
                         else max_stress_of f * 1.2)
                        (max_stress_of f),
                    timeSeriesData = ts,
                    curveData = c,
                    hotspots = Some [\<lparr>hs_type = ''max_stress'', hs_value = max_stress_of f,
                                      hs_location = hotspot_location_of f\<rparr>],
                    source = ''fenics'',
                    warning = None\<rparr>,
               report cb 95 st2)))"
  using assms
  by (simp add: solve_with_fenics_def Let_def estimate_allowable_stress_eq
           del: fold_simps split: sum.splits prod.splits)

lemma solve_with_fenics_state:
  assumes step: "\<And>v s. P s \<Longrightarrow> P (report cb v s)" and "P st"
  shows "P (snd (solve_with_fenics R fem j p cb st))"
proof (cases fem)
  case (Raises stg e)
  show ?thesis
    unfolding Raises solve_with_fenics_Raises_snd
    using assms by (rule fold_report_state)
next
  case (Solves f)
  let ?st1 = "fold (report cb) [12, 35, 55, 70, 80] st"
  have st0: "P (fold (report cb) [12] st)" using assms by (rule fold_report_state)
  have st1: "P ?st1" using assms by (rule fold_report_state)
  have st2: "P (snd (build_time_series R j p (Some (max_stress_of f)) cb (Some (80, 95)) ?st1))"
    using step st1 by (rule build_time_series_state)
  show ?thesis
  proof (cases "material_constants p")
    case (Inl e)
    with Solves st0 show ?thesis
      by (simp add: solve_with_fenics_no_constants [OF Inl] del: fold_simps)
  next
    case (Inr lame)
    obtain out2 st2 where
      ts: "build_time_series R j p (Some (max_stress_of f)) cb (Some (80, 95)) ?st1
           = (out2, st2)"
      by (cases "build_time_series R j p (Some (max_stress_of f)) cb (Some (80, 95)) ?st1")
    with st2 have P2: "P st2" by simp
    then have P3: "P (report cb 95 st2)" by (rule step)
    show ?thesis
      unfolding Solves solve_with_fenics_Solves [OF Inr] ts
      using st1 P2 P3 by (cases "build_stress_strain_curve R j p (Some (max_stress_of f))";
                           cases out2) simp_all
  qed
qed

lemma solve_with_fenics_fst_indep:
  "fst (solve_with_fenics R fem j p cb st) = fst (solve_with_fenics R fem j p cb' st')"
proof (cases fem)
  case (Raises stg e)
  then show ?thesis by (simp add: solve_with_fenics_Raises_fst)
next
  case (Solves f)
  have ts: "fst (build_time_series R j p (Some (max_stress_of f)) cb (Some (80, 95))
               (fold (report cb) [12, 35, 55, 70, 80] st))
        = fst (build_time_series R j p (Some (max_stress_of f)) cb' (Some (80, 95))
               (fold (report cb') [12, 35, 55, 70, 80] st'))"
    by (rule build_time_series_fst_indep)
  show ?thesis
  proof (cases "material_constants p")
    case (Inl e)
    with Solves show ?thesis by (simp add: solve_with_fenics_no_constants [OF Inl] del: fold_simps)
  next
    case (Inr lame)
    with Solves ts show ?thesis
      by (auto simp: solve_with_fenics_Solves [OF Inr] simp del: fold_simps
               split: sum.splits prod.splits)
  qed
qed

text \<open>What a dictionary returned by the solver path holds.\<close>

lemma solve_with_fenics_Inr:
  assumes "fst (solve_with_fenics R fem j p cb st) = Inr r"
  shows "\<exists>f. fem = Solves f \<and>
    maxStress r = max_stress_of f \<and>
    safetyFactor r =
      safety_factor_of
        (if stressStrainCurve (material p) \<noteq> []
         then Max (set (map stress (stressStrainCurve (material p)))) * 0.9
         else max_stress_of f * 1.2)
        (max_stress_of f) \<and>
    source r = ''fenics'' \<and> warning r = None \<and>
    build_stress_strain_curve R j p (Some (max_stress_of f)) = Inr (curveData r)"
proof (cases fem)
  case (Raises stg e)
  with assms show ?thesis by (simp add: solve_with_fenics_Raises_fst)
next
  case (Solves f)
  show ?thesis
  proof (cases "material_constants p")
    case (Inl e)
    with assms Solves show ?thesis
      by (simp add: solve_with_fenics_no_constants [OF Inl] del: fold_simps)
  next
    case (Inr lame)
    with assms Solves show ?thesis
      by (auto simp: solve_with_fenics_Solves [OF Inr] simp del: fold_simps
               split: sum.splits prod.splits)
  qed
qed

subsection \<open>The empty reference curve\<close>

lemma decay_in_range_same_sign:
  "0 \<le> py_or (dampingRatio p) 0.05 * py_or (duration p) 10 \<Longrightarrow> decay_in_range p"
proof -
  assume "0 \<le> py_or (dampingRatio p) 0.05 * py_or (duration p) 10"
  then have "exp (- (py_or (dampingRatio p) 0.05 * py_or (duration p) 10)) \<le> 1" by simp
  with DBL_MAX_ge_one show ?thesis unfolding decay_in_range_def by linarith
qed

lemma decay_in_range_bare [simp]: "decay_in_range bare_request"
  by (rule decay_in_range_same_sign) (simp add: bare_request_def py_or_def)

lemma decay_in_range_steel [simp]: "decay_in_range steel_request"
  by (rule decay_in_range_same_sign) (simp add: steel_request_def bare_request_def py_or_def)




subsection \<open>Allowable stress and safety factor\<close>

lemma material_constants_ok:
  assumes "poissonRatio (material p) \<noteq> - 1" and "poissonRatio (material p) \<noteq> 1 / 2"
  shows "\<exists>lame. material_constants p = Inr lame"
proof -
  from assms(1) have "2 * (1 + poissonRatio (material p)) \<noteq> 0" by simp
  moreover from assms have
    "(1 + poissonRatio (material p)) * (1 - 2 * poissonRatio (material p)) \<noteq> 0"
    by simp
  ultimately show ?thesis
    by (simp add: material_constants_def Let_def py_div_def)
qed


lemma material_constants_steel: "\<exists>lame. material_constants steel_request = Inr lame"
  by (rule material_constants_ok) (simp_all add: steel_request_def bare_request_def)

lemma solve_with_fenics_ok:
  assumes "\<exists>lame. material_constants p = Inr lame"
    and "build_stress_strain_curve R j p (Some (max_stress_of f)) = Inr c"
    and "decay_in_range p"
  shows "\<exists>r. fst (solve_with_fenics R (Solves f) j p cb st) = Inr r"
proof -
  from assms(1) obtain lame where lame: "material_constants p = Inr lame" by blast
  obtain ts where
    "fst (build_time_series R j p (Some (max_stress_of f)) cb (Some (80, 95))
            (fold (report cb) [12, 35, 55, 70, 80] st)) = Inr ts"
    using build_time_series_ok [OF assms(3), of R j "Some (max_stress_of f)" cb
                                  "Some (80, 95)" "fold (report cb) [12, 35, 55, 70, 80] st"]
    by (rule exE)
  then show ?thesis
    unfolding solve_with_fenics_Solves [OF lame]
    by (auto simp: assms(2) simp del: fold_simps split: prod.splits sum.splits)
qed

lemma steel_curve_nonempty [simp]: "stressStrainCurve (material steel_request) \<noteq> []"
  by (simp add: steel_request_def bare_request_def)

lemma steel_curve_max [simp]:
  "Max (stress ` set (stressStrainCurve (material steel_request))) = 500"
  by (simp add: steel_request_def bare_request_def)

lemma steel_curve_for_250:
  "\<exists>c. build_stress_strain_curve fixed_rng j steel_request (Some 250) = Inr c"
proof -
  have "py_max (map stress (stressStrainCurve (material steel_request))) = Inr 500"
    by (simp add: steel_request_def bare_request_def)
  then show ?thesis
    by (simp add: build_stress_strain_curve_def Let_def py_div_def)
qed

text \<open>
  Claim C7. \<^verbatim>\<open>_estimate_allowable_stress\<close> returns 0.9 times the maximum stress of the
  material's reference curve when the curve is not empty, else 1.2 times the maximum
  stress it is given. In a dictionary of either builder, \<open>safetyFactor\<close> is that
  allowable stress for the dictionary's \<open>maxStress\<close>, divided by \<open>maxStress\<close> when it
  is positive, else 0. With a reference maximum of 500 and a maximum stress of 250 the
  allowable stress is 450 and the safety factor 1.8.
\<close>

theorem safety_factor_both_modes:
  "estimate_allowable_stress p m =
     Inr (if stressStrainCurve (material p) \<noteq> []
          then 0.9 * Max (set (map stress (stressStrainCurve (material p))))
          else 1.2 * m) \<and>
   (\<forall>r. fst (build_stub_results R j p cb st) = Inr r \<or>
        fst (solve_with_fenics R fem j p cb st) = Inr r \<longrightarrow>
        (\<exists>a. estimate_allowable_stress p (maxStress r) = Inr a \<and>
             safetyFactor r = (if maxStress r > 0 then a / maxStress r else 0))) \<and>
   (stressStrainCurve (material p) \<noteq> [] \<and>
    Max (set (map stress (stressStrainCurve (material p)))) = 500 \<longrightarrow>
      estimate_allowable_stress p 250 = Inr 450 \<and>
      safety_factor_of 450 250 = 9 / 5 \<and>
      (\<forall>r. fst (solve_with_fenics R fem j p cb st) = Inr r \<and> maxStress r = 250 \<longrightarrow>
           safetyFactor r = 9 / 5))"
proof (intro conjI allI impI)
  show "estimate_allowable_stress p m =
     Inr (if stressStrainCurve (material p) \<noteq> []
          then 0.9 * Max (set (map stress (stressStrainCurve (material p))))
          else 1.2 * m)"
    by (simp add: estimate_allowable_stress_eq)
next
  fix r
  assume "fst (build_stub_results R j p cb st) = Inr r \<or>
          fst (solve_with_fenics R fem j p cb st) = Inr r"
  then show "\<exists>a. estimate_allowable_stress p (maxStress r) = Inr a \<and>
                 safetyFactor r = (if maxStress r > 0 then a / maxStress r else 0)"
  proof
    assume "fst (build_stub_results R j p cb st) = Inr r"
    from build_stub_results_Inr [OF this] show ?thesis
      by (auto simp: estimate_allowable_stress_eq safety_factor_of_def)
  next
    assume "fst (solve_with_fenics R fem j p cb st) = Inr r"
    from solve_with_fenics_Inr [OF this] show ?thesis
      by (auto simp: estimate_allowable_stress_eq safety_factor_of_def)
  qed
next
  assume "stressStrainCurve (material p) \<noteq> [] \<and>
          Max (set (map stress (stressStrainCurve (material p)))) = 500"
  then show "estimate_allowable_stress p 250 = Inr 450"
    by (simp add: estimate_allowable_stress_eq)
next
  show "safety_factor_of 450 250 = 9 / 5"
    by (simp add: safety_factor_of_def)
next
  fix r
  assume curve: "stressStrainCurve (material p) \<noteq> [] \<and>
          Max (set (map stress (stressStrainCurve (material p)))) = 500"
    and r: "fst (solve_with_fenics R fem j p cb st) = Inr r \<and> maxStress r = 250"
  from r have "fst (solve_with_fenics R fem j p cb st) = Inr r" by simp
  from solve_with_fenics_Inr [OF this] obtain f where "fem = Solves f"
    and "maxStress r = max_stress_of f"
    and "safetyFactor r =
           safety_factor_of
             (if stressStrainCurve (material p) \<noteq> []
              then Max (set (map stress (stressStrainCurve (material p)))) * 0.9
              else max_stress_of f * 1.2)
             (max_stress_of f)"
    by (elim exE conjE)
  with curve r show "safetyFactor r = 9 / 5"
    by (simp add: safety_factor_of_def)
qed

theorem safety_factor_both_modes_witness:
  "estimate_allowable_stress steel_request 250 = Inr 450 \<and>
   (\<exists>r. fst (solve_with_fenics fixed_rng (Solves solved_fields) ''job-1'' steel_request
              None ()) = Inr r \<and>
        maxStress r = 250 \<and> safetyFactor r = 9 / 5)"
proof -
  note inst = safety_factor_both_modes [of steel_request 250 fixed_rng "''job-1''" None "()"
      "Solves solved_fields"]
  obtain c where "build_stress_strain_curve fixed_rng ''job-1'' steel_request
                    (Some (max_stress_of solved_fields)) = Inr c"
    using steel_curve_for_250 [of "''job-1''"] by (auto simp: solved_fields_def)
  from solve_with_fenics_ok [OF material_constants_steel this decay_in_range_steel,
      of None "()"] obtain r where
    r: "fst (solve_with_fenics fixed_rng (Solves solved_fields) ''job-1'' steel_request
              None ()) = Inr r"
    by (rule exE)
  from solve_with_fenics_Inr [OF this] have m: "maxStress r = 250"
    by (auto simp: solved_fields_def)
  from inst r m have "estimate_allowable_stress steel_request 250 = Inr 450"
    and "safetyFactor r = 9 / 5"
    by simp_all
  with r m show ?thesis by blast
qed

subsection \<open>Shape of the time series\<close>



subsection \<open>Seeding\<close>

text \<open>
  Claim C3. The fallback path draws its random numbers from two generators only, the one
  seeded with the job identifier (time series) and the one seeded with the identifier
  followed by \<^verbatim>\<open>_curve\<close> (stress-strain curve); the two seeds differ. Whatever else
  a seeding function does, two of them that agree on these seeds give the same curve,
  the same time series and the same fallback result for the same job identifier and
  request.
\<close>

theorem fallback_deterministic:
  "j @ ''_curve'' \<noteq> j \<and>
   (R1 (j @ ''_curve'') = R2 (j @ ''_curve'') \<longrightarrow>
      build_stress_strain_curve R1 j p ms = build_stress_strain_curve R2 j p ms) \<and>
   (R1 j = R2 j \<longrightarrow>
      build_time_series R1 j p ms cb pr st = build_time_series R2 j p ms cb pr st) \<and>
   (R1 j = R2 j \<and> R1 (j @ ''_curve'') = R2 (j @ ''_curve'') \<longrightarrow>
      build_stub_results R1 j p cb st = build_stub_results R2 j p cb st)"
proof (intro conjI impI)
  show "j @ ''_curve'' \<noteq> j" by simp
next
  assume "R1 (j @ ''_curve'') = R2 (j @ ''_curve'')"
  then show "build_stress_strain_curve R1 j p ms = build_stress_strain_curve R2 j p ms"
    by (simp add: build_stress_strain_curve_def Let_def)
next
  assume "R1 j = R2 j"
  then show "build_time_series R1 j p ms cb pr st = build_time_series R2 j p ms cb pr st"
    by (simp add: build_time_series_def Let_def)
next
  assume both: "R1 j = R2 j \<and> R1 (j @ ''_curve'') = R2 (j @ ''_curve'')"
  then have c: "build_stress_strain_curve R1 j p None = build_stress_strain_curve R2 j p None"
    by (simp add: build_stress_strain_curve_def Let_def)
  from both have t:
    "build_time_series R1 j p m cb (Some (70, 95)) st
     = build_time_series R2 j p m cb (Some (70, 95)) st" for m
    by (simp add: build_time_series_def Let_def)
  show "build_stub_results R1 j p cb st = build_stub_results R2 j p cb st"
    unfolding build_stub_results_def c t by (rule refl)
qed

theorem fallback_deterministic_witness:
  "build_stub_results fixed_rng ''job-1'' steel_request None ()
   = build_stub_results
       (\<lambda>seed. if seed = ''job-1'' \<or> seed = ''job-1_curve'' then sconst (1 / 2) else sconst 0)
       ''job-1'' steel_request None ()"
  using fallback_deterministic [of "''job-1''" fixed_rng
      "\<lambda>seed. if seed = ''job-1'' \<or> seed = ''job-1_curve'' then sconst (1 / 2) else sconst 0"
      steel_request None None None "()"]
  by (simp add: fixed_rng_def)

subsection \<open>Zero-valued optional inputs\<close>

text \<open>
  Claim C10. A duration, frequency or damping ratio given as zero is processed like one
  that is left out, and both like the default (10, 1, 0.05): in the time series, in the
  strain scaling of the curve and in the mesh resolution. The applied load is different:
  only a missing load is replaced by 1000, and a load of zero counts as zero, so that
  with the default duration the mesh resolution is 7 for a load of zero and 8 for a
  missing load, and the curve is scaled by the lower clamp 0.6 rather than by 1.
\<close>

theorem zero_inputs_default:
  "build_time_series R j (p\<lparr>duration := Some 0\<rparr>) ms cb pr st
     = build_time_series R j (p\<lparr>duration := Some 10\<rparr>) ms cb pr st \<and>
   build_time_series R j (p\<lparr>duration := None\<rparr>) ms cb pr st
     = build_time_series R j (p\<lparr>duration := Some 10\<rparr>) ms cb pr st \<and>
   build_time_series R j (p\<lparr>frequency := Some 0\<rparr>) ms cb pr st
     = build_time_series R j (p\<lparr>frequency := Some 1\<rparr>) ms cb pr st \<and>
   build_time_series R j (p\<lparr>frequency := None\<rparr>) ms cb pr st
     = build_time_series R j (p\<lparr>frequency := Some 1\<rparr>) ms cb pr st \<and>
   build_time_series R j (p\<lparr>dampingRatio := Some 0\<rparr>) ms cb pr st
     = build_time_series R j (p\<lparr>dampingRatio := Some 0.05\<rparr>) ms cb pr st \<and>
   build_time_series R j (p\<lparr>dampingRatio := None\<rparr>) ms cb pr st
     = build_time_series R j (p\<lparr>dampingRatio := Some 0.05\<rparr>) ms cb pr st \<and>
   build_stress_strain_curve R j (p\<lparr>dampingRatio := Some 0\<rparr>) ms
     = build_stress_strain_curve R j (p\<lparr>dampingRatio := Some 0.05\<rparr>) ms \<and>
   build_stress_strain_curve R j (p\<lparr>dampingRatio := None\<rparr>) ms
     = build_stress_strain_curve R j (p\<lparr>dampingRatio := Some 0.05\<rparr>) ms \<and>
   mesh_resolution (p\<lparr>duration := Some 0\<rparr>) = mesh_resolution (p\<lparr>duration := Some 10\<rparr>) \<and>
   mesh_resolution (p\<lparr>duration := None\<rparr>) = mesh_resolution (p\<lparr>duration := Some 10\<rparr>) \<and>
   mesh_resolution (p\<lparr>appliedLoad := None\<rparr>) = mesh_resolution (p\<lparr>appliedLoad := Some 1000\<rparr>) \<and>
   build_stress_strain_curve R j (p\<lparr>appliedLoad := None\<rparr>) ms
     = build_stress_strain_curve R j (p\<lparr>appliedLoad := Some 1000\<rparr>) ms \<and>
   mesh_resolution (p\<lparr>appliedLoad := Some 0, duration := None\<rparr>) = 7 \<and>
   mesh_resolution (p\<lparr>appliedLoad := None, duration := None\<rparr>) = 8 \<and>
   build_stress_strain_curve fixed_rng j (steel_request\<lparr>appliedLoad := Some 0\<rparr>) None
     = Inr [\<lparr>strain = 101 / 100000, stress = 120\<rparr>, \<lparr>strain = 202 / 100000, stress = 300\<rparr>] \<and>
   build_stress_strain_curve fixed_rng j (steel_request\<lparr>appliedLoad := None\<rparr>) None
     = Inr [\<lparr>strain = 101 / 100000, stress = 200\<rparr>, \<lparr>strain = 202 / 100000, stress = 500\<rparr>]"
  by (simp add: build_time_series_def build_stress_strain_curve_def mesh_resolution_def
                py_or_def if_not_None_def py_int_def Let_def
                steel_request_def bare_request_def fixed_rng_def uniform_def)

subsection \<open>Stress summary of the fallback result\<close>









subsection \<open>Signs of the synthesized values\<close>






subsection \<open>The job runner\<close>

lemma assign_simps [simp]:
  "job (assign upd s) = upd (job s)"
  "observed (assign upd s) = observed s @ [upd (job s)]"
  "last_progress (assign upd s) = last_progress s"
  by (simp_all add: assign_def Let_def)

lemma set_progress_simps:
  "job (set_progress v s) = (job s)\<lparr>progress := min (max v (last_progress s)) 99\<rparr>"
  "observed (set_progress v s)
     = observed s @ [(job s)\<lparr>progress := min (max v (last_progress s)) 99\<rparr>]"
  "last_progress (set_progress v s) = min (max v (last_progress s)) 99"
  by (simp_all add: set_progress_def Let_def)

lemma sorted_le_last:
  fixes xs :: "int list"
  shows "sorted xs \<Longrightarrow> x \<in> set xs \<Longrightarrow> x \<le> last xs"
  by (induction xs) auto

lemma run_inv_job:
  assumes "run_inv s"
  shows "running_snapshot (job s)" and "progress (job s) \<le> 99"
    and "last_progress s \<le> 99"
proof -
  from assms have ne: "observed s \<noteq> []"
    and all: "list_all running_snapshot (observed s)" and last: "last (observed s) = job s"
    by (simp_all add: run_inv_def)
  from ne have "last (observed s) \<in> set (observed s)" by (rule last_in_set)
  with all last show "running_snapshot (job s)" by (auto simp: list_all_iff)
  then show "progress (job s) \<le> 99" by (simp add: running_snapshot_def)
  with assms show "last_progress s \<le> 99" by (simp add: run_inv_def)
qed

lemma run_inv_set_progress:
  assumes "run_inv s"
  shows "run_inv (set_progress v s)"
proof -
  let ?new = "min (max v (last_progress s)) 99"
  from assms have lp: "last_progress s = progress (job s)"
    and ne: "observed s \<noteq> []" and last: "last (observed s) = job s"
    and srt: "sorted (map progress (observed s))"
    and all: "list_all running_snapshot (observed s)"
    by (simp_all add: run_inv_def)
  note run_inv_job [OF assms]
  then have snap: "running_snapshot ((job s)\<lparr>progress := ?new\<rparr>)"
    by (simp add: running_snapshot_def)
  have le: "x \<le> ?new" if "x \<in> set (map progress (observed s))" for x
  proof -
    from srt that have "x \<le> last (map progress (observed s))" by (rule sorted_le_last)
    also from ne last lp have "\<dots> = last_progress s" by (simp add: last_map)
    also from \<open>last_progress s \<le> 99\<close> have "\<dots> \<le> ?new" by simp
    finally show ?thesis .
  qed
  have "sorted (map progress (observed s) @ [?new])"
    unfolding sorted_append using srt le by simp
  with snap all show ?thesis
    by (simp add: run_inv_def set_progress_simps)
qed

lemma run_inv_report:
  "run_inv s \<Longrightarrow> run_inv (report (Some set_progress) v s)"
  by (simp add: report_def run_inv_set_progress)

lemma created_job_running:
  "snd (create_job j jobs) j
     = Some \<lparr>job_id = j, status = ''running'', progress = 5, results = None, error = None\<rparr>"
  "fst (create_job j jobs)
     = \<lparr>job_id = j, status = ''running'', progress = 5, results = None, error = None\<rparr>"
  "running_snapshot
     \<lparr>job_id = j, status = ''running'', progress = 5, results = None, error = None\<rparr>"
  by (simp_all add: create_job_def Let_def running_snapshot_def)

lemma run_inv_hd_report:
  assumes "run_inv s \<and> hd (observed s) = st0"
  shows "run_inv (report (Some set_progress) v s) \<and>
         hd (observed (report (Some set_progress) v s)) = st0"
proof
  from assms show "run_inv (report (Some set_progress) v s)"
    by (simp add: run_inv_report)
  from assms have "observed s \<noteq> []" by (simp add: run_inv_def)
  with assms show "hd (observed (report (Some set_progress) v s)) = st0"
    by (simp add: report_def set_progress_simps)
qed

lemma run_inv_initial:
  "running_snapshot st0 \<Longrightarrow> run_inv \<lparr>job = st0, last_progress = progress st0, observed = [st0]\<rparr>"
  by (simp add: run_inv_def)

text \<open>The three ways \<^verbatim>\<open>_run_job\<close> ends, by the outcomes of the two builders.\<close>

lemma run_job_solved:
  assumes "jobs j = Some st0" and "running_snapshot st0"
    and res: "fst (solve_with_fenics R fem j p None ()) = Inr res"
  shows "\<exists>s. run_inv s \<and> hd (observed s) = st0 \<and>
    run_job R fem jobs j p =
      (Inr (),
       jobs(j \<mapsto> (job s)\<lparr>status := ''completed'', progress := 100, results := Some res\<rparr>),
       observed s @
         [(job s)\<lparr>status := ''completed''\<rparr>,
          (job s)\<lparr>status := ''completed'', progress := 100\<rparr>,
          (job s)\<lparr>status := ''completed'', progress := 100, results := Some res\<rparr>])"
proof -
  define s1 where
    "s1 = set_progress 8 \<lparr>job = st0, last_progress = progress st0, observed = [st0]\<rparr>"
  let ?P = "\<lambda>s. run_inv s \<and> hd (observed s) = st0"
  have step: "?P (report (Some set_progress) v s)" if "?P s" for v s
    using that by (rule run_inv_hd_report)
  have P1: "?P s1"
    unfolding s1_def using run_inv_set_progress [OF run_inv_initial [OF assms(2)]]
    by (simp add: set_progress_simps)
  obtain out s2 where
    sol: "solve_with_fenics R fem j p (Some set_progress) s1 = (out, s2)"
    by (cases "solve_with_fenics R fem j p (Some set_progress) s1")
  from solve_with_fenics_state [of ?P "Some set_progress" s1 R fem j p] step P1 sol
  have P2: "?P s2" by simp
  from solve_with_fenics_fst_indep [of R fem j p "Some set_progress" s1 None "()"] sol res
  have out: "out = Inr res" by simp
  have "run_job R fem jobs j p =
      (Inr (),
       jobs(j \<mapsto> (job s2)\<lparr>status := ''completed'', progress := 100, results := Some res\<rparr>),
       observed s2 @
         [(job s2)\<lparr>status := ''completed''\<rparr>,
          (job s2)\<lparr>status := ''completed'', progress := 100\<rparr>,
          (job s2)\<lparr>status := ''completed'', progress := 100, results := Some res\<rparr>])"
    unfolding run_job_def
    by (simp add: assms(1) Let_def s1_def [symmetric] sol out)
  with P2 show ?thesis by blast
qed

lemma run_job_raised:
  assumes "jobs j = Some st0" and "running_snapshot st0"
    and exc: "fst (solve_with_fenics R fem j p None ()) = Inl exc"
  shows "\<exists>s. run_inv s \<and> hd (observed s) = st0 \<and>
    run_job R fem jobs j p =
      (case fst (build_stub_results R j p None ()) of
         Inl e \<Rightarrow> (Inl e, jobs(j \<mapsto> job s), observed s)
       | Inr fallback \<Rightarrow>
           (Inr (),
            jobs(j \<mapsto> (job s)\<lparr>status := ''completed'', progress := 100,
                   results := Some (fallback\<lparr>warning :=
                     Some ''FEniCS unavailable, using fallback results.''\<rparr>)\<rparr>),
            observed s @
              [(job s)\<lparr>status := ''completed''\<rparr>,
               (job s)\<lparr>status := ''completed'', progress := 100\<rparr>,
               (job s)\<lparr>status := ''completed'', progress := 100,
                 results := Some (fallback\<lparr>warning :=
                   Some ''FEniCS unavailable, using fallback results.''\<rparr>)\<rparr>]))"
proof -
  define s1 where
    "s1 = set_progress 8 \<lparr>job = st0, last_progress = progress st0, observed = [st0]\<rparr>"
  let ?P = "\<lambda>s. run_inv s \<and> hd (observed s) = st0"
  have step: "?P (report (Some set_progress) v s)" if "?P s" for v s
    using that by (rule run_inv_hd_report)
  have P1: "?P s1"
    unfolding s1_def using run_inv_set_progress [OF run_inv_initial [OF assms(2)]]
    by (simp add: set_progress_simps)
  obtain out s2 where
    sol: "solve_with_fenics R fem j p (Some set_progress) s1 = (out, s2)"
    by (cases "solve_with_fenics R fem j p (Some set_progress) s1")
  from solve_with_fenics_state [of ?P "Some set_progress" s1 R fem j p] step P1 sol
  have P2: "?P s2" by simp
  from solve_with_fenics_fst_indep [of R fem j p "Some set_progress" s1 None "()"] sol exc
  have out: "out = Inl exc" by simp
  define s3 where "s3 = set_progress 70 s2"
  from step [OF P2, of 70] have P3: "?P s3" by (simp add: s3_def report_def)
  obtain outb s4 where
    stub: "build_stub_results R j p (Some set_progress) s3 = (outb, s4)"
    by (cases "build_stub_results R j p (Some set_progress) s3")
  from build_stub_results_state [of ?P "Some set_progress" s3 R j p] step P3 stub
  have P4: "?P s4" by simp
  from build_stub_results_fst_indep [of R j p "Some set_progress" s3 None "()"] stub
  have outb: "fst (build_stub_results R j p None ()) = outb" by simp
  have "run_job R fem jobs j p =
      (case outb of
         Inl e \<Rightarrow> (Inl e, jobs(j \<mapsto> job s4), observed s4)
       | Inr fallback \<Rightarrow>
           (Inr (),
            jobs(j \<mapsto> (job s4)\<lparr>status := ''completed'', progress := 100,
                   results := Some (fallback\<lparr>warning :=
                     Some ''FEniCS unavailable, using fallback results.''\<rparr>)\<rparr>),
            observed s4 @
              [(job s4)\<lparr>status := ''completed''\<rparr>,
               (job s4)\<lparr>status := ''completed'', progress := 100\<rparr>,
               (job s4)\<lparr>status := ''completed'', progress := 100,
                 results := Some (fallback\<lparr>warning :=
                   Some ''FEniCS unavailable, using fallback results.''\<rparr>)\<rparr>]))"
    unfolding run_job_def
    by (simp add: assms(1) Let_def s1_def [symmetric] sol out s3_def [symmetric] stub
             split: sum.splits)
  with P4 outb show ?thesis by blast
qed

text \<open>
  A run for a job as \<^verbatim>\<open>create_job\<close> stored it: either it returns after the three
  terminal assignments, with the result of the solver path or with the fallback result
  and its warning, or the fallback builder raises and the record stays as the last
  progress report left it.
\<close>

lemma run_job_shape:
  assumes run: "run_job R fem (snd (create_job j jobs)) j p = (out, jobs', obs)"
  shows "\<exists>s. run_inv s \<and>
      hd (observed s)
        = \<lparr>job_id = j, status = ''running'', progress = 5, results = None, error = None\<rparr> \<and>
      ((\<exists>r. out = Inr () \<and>
            obs = observed s @
              [(job s)\<lparr>status := ''completed''\<rparr>,
               (job s)\<lparr>status := ''completed'', progress := 100\<rparr>,
               (job s)\<lparr>status := ''completed'', progress := 100, results := Some r\<rparr>] \<and>
            jobs' j
              = Some ((job s)\<lparr>status := ''completed'', progress := 100, results := Some r\<rparr>) \<and>
            (fst (solve_with_fenics R fem j p None ()) = Inr r \<or>
             (\<exists>e fb. fst (solve_with_fenics R fem j p None ()) = Inl e \<and>
                     fst (build_stub_results R j p None ()) = Inr fb \<and>
                     r = fb\<lparr>warning :=
                           Some ''FEniCS unavailable, using fallback results.''\<rparr>))) \<or>
       (\<exists>e e'. out = Inl e' \<and> obs = observed s \<and> jobs' j = Some (job s) \<and>
               fst (solve_with_fenics R fem j p None ()) = Inl e \<and>
               fst (build_stub_results R j p None ()) = Inl e'))"
proof (cases "fst (solve_with_fenics R fem j p None ())")
  case (Inr res)
  from run_job_solved [where jobs = "snd (create_job j jobs)" and j = j,
      OF created_job_running(1) created_job_running(3) Inr]
  obtain s where "run_inv s"
    "hd (observed s)
       = \<lparr>job_id = j, status = ''running'', progress = 5, results = None, error = None\<rparr>"
    "run_job R fem (snd (create_job j jobs)) j p =
      (Inr (),
       (snd (create_job j jobs))
         (j \<mapsto> (job s)\<lparr>status := ''completed'', progress := 100, results := Some res\<rparr>),
       observed s @
         [(job s)\<lparr>status := ''completed''\<rparr>,
          (job s)\<lparr>status := ''completed'', progress := 100\<rparr>,
          (job s)\<lparr>status := ''completed'', progress := 100, results := Some res\<rparr>])"
    by blast
  with run Inr show ?thesis
    by (intro exI [of _ s]) auto
next
  case (Inl e)
  from run_job_raised [where jobs = "snd (create_job j jobs)" and j = j,
      OF created_job_running(1) created_job_running(3) Inl]
  obtain s where s: "run_inv s"
    "hd (observed s)
       = \<lparr>job_id = j, status = ''running'', progress = 5, results = None, error = None\<rparr>"
    and eq: "run_job R fem (snd (create_job j jobs)) j p =
      (case fst (build_stub_results R j p None ()) of
         Inl e \<Rightarrow> (Inl e, (snd (create_job j jobs))(j \<mapsto> job s), observed s)
       | Inr fallback \<Rightarrow>
           (Inr (),
            (snd (create_job j jobs))
              (j \<mapsto> (job s)\<lparr>status := ''completed'', progress := 100,
                   results := Some (fallback\<lparr>warning :=
                     Some ''FEniCS unavailable, using fallback results.''\<rparr>)\<rparr>),
            observed s @
              [(job s)\<lparr>status := ''completed''\<rparr>,
               (job s)\<lparr>status := ''completed'', progress := 100\<rparr>,
               (job s)\<lparr>status := ''completed'', progress := 100,
                 results := Some (fallback\<lparr>warning :=
                   Some ''FEniCS unavailable, using fallback results.''\<rparr>)\<rparr>]))"
    by blast
  show ?thesis
  proof (cases "fst (build_stub_results R j p None ())")
    case stub: (Inl e')
    with run eq s Inl show ?thesis
      by (intro exI [of _ s]) auto
  next
    case stub: (Inr fb)
    with run eq s Inl show ?thesis
      by (intro exI [of _ s]) auto
  qed
qed

lemma run_job_returns:
  assumes "decay_in_range p"
  shows "fst (run_job R fem (snd (create_job j jobs)) j p) = Inr ()"
proof -
  obtain out jobs' obs where
    run: "run_job R fem (snd (create_job j jobs)) j p = (out, jobs', obs)"
    by (cases "run_job R fem (snd (create_job j jobs)) j p")
  obtain fb where "fst (build_stub_results R j p None ()) = Inr fb"
    using build_stub_results_ok [OF assms, of R j None "()"] by (rule exE)
  with run_job_shape [OF run] have "out = Inr ()" by auto
  with run show ?thesis by simp
qed

lemma terminal_trace_sorted:
  assumes "run_inv s"
  shows "sorted (map progress (observed s) @ [progress (job s), 100, 100])"
proof -
  from assms have srt: "sorted (map progress (observed s))"
    and ne: "observed s \<noteq> []" and last: "last (observed s) = job s"
    by (simp_all add: run_inv_def)
  have le: "\<forall>x\<in>set (map progress (observed s)). x \<le> progress (job s)"
  proof
    fix x
    assume "x \<in> set (map progress (observed s))"
    with srt have "x \<le> last (map progress (observed s))" by (rule sorted_le_last)
    with ne last show "x \<le> progress (job s)" by (simp add: last_map)
  qed
  from run_inv_job(2) [OF assms] have cap: "progress (job s) \<le> 100" by simp
  with le have le100: "\<forall>x\<in>set (map progress (observed s)). x \<le> 100" by auto
  from srt le le100 cap show ?thesis
    unfolding sorted_append by simp
qed

lemma run_inv_all_capped:
  assumes "run_inv s"
  shows "list_all (\<lambda>x. progress x \<le> 99) (observed s)"
    and "list_all (\<lambda>x. error x = None \<and> status x = ''running'' \<and> results x = None)
           (observed s)"
  using assms by (auto simp: run_inv_def list_all_iff running_snapshot_def)

subsection \<open>Progress over a job's lifecycle\<close>

text \<open>
  Claim C4. Progress is an integer. While the last reported value is at most 99, as it
  is from the 5 of \<^verbatim>\<open>create_job\<close> on, \<^verbatim>\<open>set_progress\<close> sets the record's progress
  and the last reported value to \<open>max lastReported (min candidate 99)\<close>, which is at
  least the last reported value and at most 99. Over a run of \<^verbatim>\<open>_run_job\<close> for a job
  as \<^verbatim>\<open>create_job\<close> stored it, the progress values of the record start at 5 and
  never decrease; when the run returns, every value before the assignment
  \<^verbatim>\<open>status.progress = 100\<close> is at most 99 and the values from it on are 100; when the
  run is left by an exception, every value is at most 99.
\<close>

theorem progress_monotone_capped:
  "(last_progress s \<le> 99 \<longrightarrow>
      progress (job (set_progress v s)) = max (last_progress s) (min v 99) \<and>
      last_progress (set_progress v s) = max (last_progress s) (min v 99) \<and>
      last_progress s \<le> last_progress (set_progress v s) \<and>
      last_progress (set_progress v s) \<le> 99) \<and>
   (run_job R fem (snd (create_job j jobs)) j p = (out, jobs', obs) \<longrightarrow>
      progress (hd obs) = 5 \<and>
      sorted (map progress obs) \<and>
      (out = Inr () \<longrightarrow>
         (\<exists>pre a b c. obs = pre @ [a, b, c] \<and>
            list_all (\<lambda>x. progress x \<le> 99) (pre @ [a]) \<and>
            status b = ''completed'' \<and> progress b = 100 \<and> progress c = 100)) \<and>
      (out \<noteq> Inr () \<longrightarrow> list_all (\<lambda>x. progress x \<le> 99) obs))"
proof (intro conjI impI)
  assume "last_progress s \<le> 99"
  then show "progress (job (set_progress v s)) = max (last_progress s) (min v 99)"
    and "last_progress (set_progress v s) = max (last_progress s) (min v 99)"
    and "last_progress s \<le> last_progress (set_progress v s)"
    and "last_progress (set_progress v s) \<le> 99"
    by (simp_all add: set_progress_simps)
next
  assume run: "run_job R fem (snd (create_job j jobs)) j p = (out, jobs', obs)"
  from run_job_shape [OF run] obtain s r where inv: "run_inv s"
    and first: "hd (observed s)
        = \<lparr>job_id = j, status = ''running'', progress = 5, results = None, error = None\<rparr>"
    and shape: "(out = Inr () \<and>
          obs = observed s @
            [(job s)\<lparr>status := ''completed''\<rparr>,
             (job s)\<lparr>status := ''completed'', progress := 100\<rparr>,
             (job s)\<lparr>status := ''completed'', progress := 100, results := Some r\<rparr>]) \<or>
         (out \<noteq> Inr () \<and> obs = observed s)"
    by auto
  from inv have ne: "observed s \<noteq> []" by (simp add: run_inv_def)
  from inv have srt: "sorted (map progress (observed s))" by (simp add: run_inv_def)
  note capped = run_inv_all_capped(1) [OF inv]
  note cap = run_inv_job(2) [OF inv]
  from shape ne first show "progress (hd obs) = 5" by auto
  from shape srt terminal_trace_sorted [OF inv] show "sorted (map progress obs)" by auto
  {
    assume "out = Inr ()"
    with shape have obs: "obs = observed s @
            [(job s)\<lparr>status := ''completed''\<rparr>,
             (job s)\<lparr>status := ''completed'', progress := 100\<rparr>,
             (job s)\<lparr>status := ''completed'', progress := 100, results := Some r\<rparr>]"
      by auto
    show "\<exists>pre a b c. obs = pre @ [a, b, c] \<and>
            list_all (\<lambda>x. progress x \<le> 99) (pre @ [a]) \<and>
            status b = ''completed'' \<and> progress b = 100 \<and> progress c = 100"
    proof (intro exI conjI)
      show "obs = observed s @
            [(job s)\<lparr>status := ''completed''\<rparr>,
             (job s)\<lparr>status := ''completed'', progress := 100\<rparr>,
             (job s)\<lparr>status := ''completed'', progress := 100, results := Some r\<rparr>]"
        by (rule obs)
      from capped cap show "list_all (\<lambda>x. progress x \<le> 99)
              (observed s @ [(job s)\<lparr>status := ''completed''\<rparr>])"
        by simp
    qed simp_all
  }
  {
    assume "out \<noteq> Inr ()"
    with shape capped show "list_all (\<lambda>x. progress x \<le> 99) obs" by auto
  }
qed

theorem progress_monotone_capped_witness:
  "progress (job (set_progress 42
      \<lparr>job = fst (create_job ''job-1'' Map.empty), last_progress = 5, observed = []\<rparr>)) = 42 \<and>
   progress (job (set_progress 3
      \<lparr>job = fst (create_job ''job-1'' Map.empty), last_progress = 42, observed = []\<rparr>)) = 42 \<and>
   progress (job (set_progress 120
      \<lparr>job = fst (create_job ''job-1'' Map.empty), last_progress = 42, observed = []\<rparr>)) = 99 \<and>
   (\<exists>jobs' obs.
      run_job fixed_rng (Raises Import (External ''No module named dolfin''))
        (snd (create_job ''job-1'' Map.empty)) ''job-1'' bare_request = (Inr (), jobs', obs) \<and>
      progress (hd obs) = 5 \<and> sorted (map progress obs) \<and> progress (last obs) = 100)"
proof -
  let ?j0 = "fst (create_job ''job-1'' Map.empty)"
  let ?fem = "Raises Import (External ''No module named dolfin'')"
  have a: "progress (job (set_progress 42
      \<lparr>job = ?j0, last_progress = 5, observed = []\<rparr>)) = 42"
    using progress_monotone_capped
      [of "\<lparr>job = ?j0, last_progress = 5, observed = []\<rparr>" 42]
    by simp
  have b: "progress (job (set_progress 3
      \<lparr>job = ?j0, last_progress = 42, observed = []\<rparr>)) = 42"
    using progress_monotone_capped
      [of "\<lparr>job = ?j0, last_progress = 42, observed = []\<rparr>" 3]
    by simp
  have c: "progress (job (set_progress 120
      \<lparr>job = ?j0, last_progress = 42, observed = []\<rparr>)) = 99"
    using progress_monotone_capped
      [of "\<lparr>job = ?j0, last_progress = 42, observed = []\<rparr>" 120]
    by simp
  obtain out jobs' obs where
    run: "run_job fixed_rng ?fem (snd (create_job ''job-1'' Map.empty)) ''job-1'' bare_request
          = (out, jobs', obs)"
    by (cases "run_job fixed_rng ?fem (snd (create_job ''job-1'' Map.empty)) ''job-1''
                 bare_request")
  from run_job_returns [OF decay_in_range_bare, of fixed_rng ?fem "''job-1''" Map.empty] run
  have out: "out = Inr ()" by simp
  from progress_monotone_capped [of _ _ fixed_rng ?fem "''job-1''" Map.empty bare_request
      out jobs' obs] run out
  have "progress (hd obs) = 5" and "sorted (map progress obs)"
    and "\<exists>pre a b c. obs = pre @ [a, b, c] \<and>
            list_all (\<lambda>x. progress x \<le> 99) (pre @ [a]) \<and>
            status b = ''completed'' \<and> progress b = 100 \<and> progress c = 100"
    by simp_all
  moreover from this(3) have "progress (last obs) = 100" by auto
  ultimately show ?thesis using a b c run out by blast
qed

subsection \<open>Order of the terminal assignments\<close>

text \<open>
  Claim C1 says that the results are stored before, or together with, the status
  \<^verbatim>\<open>completed\<close>. The code assigns the status first, then the progress, then the
  results: whenever a run returns, the history of the record ends with a record whose
  status is \<^verbatim>\<open>completed\<close> and whose results are still \<^verbatim>\<open>None\<close>, then one with
  progress 100 and still no results, and only then the record with the results.
\<close>

theorem completed_visible_before_results:
  "run_job R fem (snd (create_job j jobs)) j p = (Inr (), jobs', obs) \<longrightarrow>
     (\<exists>pre a b c. obs = pre @ [a, b, c] \<and>
        status a = ''completed'' \<and> results a = None \<and>
        status b = ''completed'' \<and> progress b = 100 \<and> results b = None \<and>
        status c = ''completed'' \<and> progress c = 100 \<and> results c \<noteq> None \<and>
        jobs' j = Some c)"
proof
  assume run: "run_job R fem (snd (create_job j jobs)) j p = (Inr (), jobs', obs)"
  from run_job_shape [OF run] obtain s r where inv: "run_inv s"
    and obs: "obs = observed s @
            [(job s)\<lparr>status := ''completed''\<rparr>,
             (job s)\<lparr>status := ''completed'', progress := 100\<rparr>,
             (job s)\<lparr>status := ''completed'', progress := 100, results := Some r\<rparr>]"
    and fin: "jobs' j
       = Some ((job s)\<lparr>status := ''completed'', progress := 100, results := Some r\<rparr>)"
    by auto
  from run_inv_job(1) [OF inv] have none: "results (job s) = None"
    by (simp add: running_snapshot_def)
  show "\<exists>pre a b c. obs = pre @ [a, b, c] \<and>
        status a = ''completed'' \<and> results a = None \<and>
        status b = ''completed'' \<and> progress b = 100 \<and> results b = None \<and>
        status c = ''completed'' \<and> progress c = 100 \<and> results c \<noteq> None \<and>
        jobs' j = Some c"
  proof (intro exI conjI)
    show "obs = observed s @
            [(job s)\<lparr>status := ''completed''\<rparr>,
             (job s)\<lparr>status := ''completed'', progress := 100\<rparr>,
             (job s)\<lparr>status := ''completed'', progress := 100, results := Some r\<rparr>]"
      by (rule obs)
    show "jobs' j
       = Some ((job s)\<lparr>status := ''completed'', progress := 100, results := Some r\<rparr>)"
      by (rule fin)
  qed (simp_all add: none)
qed

theorem completed_visible_before_results_witness:
  "\<exists>jobs' obs.
     run_job fixed_rng (Raises Import (External ''No module named dolfin''))
       (snd (create_job ''job-1'' Map.empty)) ''job-1'' bare_request = (Inr (), jobs', obs) \<and>
     list_ex (\<lambda>x. status x = ''completed'' \<and> results x = None) obs"
proof -
  let ?fem = "Raises Import (External ''No module named dolfin'')"
  obtain out jobs' obs where
    run: "run_job fixed_rng ?fem (snd (create_job ''job-1'' Map.empty)) ''job-1'' bare_request
          = (out, jobs', obs)"
    by (cases "run_job fixed_rng ?fem (snd (create_job ''job-1'' Map.empty)) ''job-1''
                 bare_request")
  from run_job_returns [OF decay_in_range_bare, of fixed_rng ?fem "''job-1''" Map.empty] run
  have run': "run_job fixed_rng ?fem (snd (create_job ''job-1'' Map.empty)) ''job-1''
                bare_request = (Inr (), jobs', obs)"
    by simp
  with completed_visible_before_results [of fixed_rng ?fem "''job-1''" Map.empty
      bare_request jobs' obs]
  have "list_ex (\<lambda>x. status x = ''completed'' \<and> results x = None) obs"
    by auto
  with run' show ?thesis by blast
qed

subsection \<open>How a job ends\<close>




end
